theory Spec2Isabelle
  imports Complex_Main "HOL-Library.Word"
begin

section \<open>JavaScript strings\<close>

text \<open>
  A JavaScript string is a sequence of 16-bit UTF-16 code units. Constant texts of the
  component are written as ASCII literals and injected with \<open>js\<close>.
\<close>

type_synonym code_unit = "16 word"
type_synonym jsstring = "code_unit list"

definition js :: "string \<Rightarrow> jsstring" where
  "js s = map (\<lambda>c. of_char c) s"

section \<open>The regular expression of \<open>validateEmail\<close>\<close>

text \<open>
  \<^verbatim>\<open>const emailRegex = /^[^\s@]+@[^\s@]+\.[^\s@]+$/;\<close>

  The pattern is a sequence of terms, each a single position or a \<open>+\<close>-repetition of a
  character class, anchored at both ends of the input (no \<open>m\<close>, \<open>g\<close>, \<open>y\<close> or \<open>u\<close>
  flag: \<open>^\<close> and \<open>$\<close> are the ends of the string, and classes range over code units).
\<close>

datatype rx_term = One "code_unit \<Rightarrow> bool" | OneOrMore "code_unit \<Rightarrow> bool"

text \<open>
  The class escape \<open>\s\<close> of ECMAScript: WhiteSpace (TAB, VT, FF, ZWNBSP and the
  Unicode category Zs) and LineTerminator (LF, CR, LS, PS).
\<close>

definition rx_space :: "code_unit \<Rightarrow> bool" where
  "rx_space c \<longleftrightarrow>
     c = 0x0009 \<or> c = 0x000A \<or> c = 0x000B \<or> c = 0x000C \<or> c = 0x000D \<or> c = 0x0020 \<or>
     c = 0x00A0 \<or> c = 0x1680 \<or> (0x2000 \<le> c \<and> c \<le> 0x200A) \<or> c = 0x2028 \<or> c = 0x2029 \<or>
     c = 0x202F \<or> c = 0x205F \<or> c = 0x3000 \<or> c = 0xFEFF"

definition chr_at :: code_unit where "chr_at = 0x40"
definition chr_dot :: code_unit where "chr_dot = 0x2E"

text \<open>\<^verbatim>\<open>[^\s@]\<close>\<close>

definition not_space_at :: "code_unit \<Rightarrow> bool" where
  "not_space_at c \<longleftrightarrow> \<not> (rx_space c \<or> c = chr_at)"

text \<open>
  Backtracking match of a term list against the whole remaining input: a repetition takes
  one code unit and then either repeats or hands over to the rest of the pattern; the
  empty pattern is the anchor \<open>$\<close>.
\<close>

fun rx_match :: "rx_term list \<Rightarrow> jsstring \<Rightarrow> bool" where
  "rx_match [] s \<longleftrightarrow> s = []"
| "rx_match (One p # r) [] \<longleftrightarrow> False"
| "rx_match (One p # r) (c # s) \<longleftrightarrow> p c \<and> rx_match r s"
| "rx_match (OneOrMore p # r) [] \<longleftrightarrow> False"
| "rx_match (OneOrMore p # r) (c # s) \<longleftrightarrow>
     p c \<and> (rx_match (OneOrMore p # r) s \<or> rx_match r s)"

definition emailRegex :: "rx_term list" where
  "emailRegex =
     [OneOrMore not_space_at, One (\<lambda>c. c = chr_at),
      OneOrMore not_space_at, One (\<lambda>c. c = chr_dot),
      OneOrMore not_space_at]"

text \<open>
  \<^verbatim>\<open>const validateEmail = (email: string) => { ...; return emailRegex.test(email); };\<close>
\<close>

definition validateEmail :: "jsstring \<Rightarrow> bool" where
  "validateEmail email = rx_match emailRegex email"

section \<open>The \<open>URL\<close> constructor of \<open>validateUrl\<close>\<close>

text \<open>
  \<^verbatim>\<open>new URL(url)\<close> is the platform's URL parser (WHATWG URL Standard, basic URL parser) run
  without a base URL; it throws a \<open>TypeError\<close> when the parser returns failure. The
  parser is written here one function per parser state, each consuming the remaining
  input. All its decisions compare against ASCII code points, so running over UTF-16 code
  units takes the same branches as running over code points. Only what decides success
  and the presence of a host is recorded: credentials, path, query and fragment are parsed
  by states that accept every input and are not kept.
\<close>

datatype js_error = TypeError | SyntaxError | Error string

datatype host =
    Domain jsstring
  | IPv4 nat
  | IPv6 "nat list"
  | OpaqueHost jsstring
  | EmptyHost

record URL_record =
  scheme :: jsstring
  host :: "host option"
  port :: "nat option"

subsection \<open>Code point classes\<close>

definition ascii_alpha :: "code_unit \<Rightarrow> bool" where
  "ascii_alpha c \<longleftrightarrow> (0x41 \<le> c \<and> c \<le> 0x5A) \<or> (0x61 \<le> c \<and> c \<le> 0x7A)"

definition ascii_digit :: "code_unit \<Rightarrow> bool" where
  "ascii_digit c \<longleftrightarrow> 0x30 \<le> c \<and> c \<le> 0x39"

definition ascii_alphanumeric :: "code_unit \<Rightarrow> bool" where
  "ascii_alphanumeric c \<longleftrightarrow> ascii_digit c \<or> ascii_alpha c"

definition ascii_hex_digit :: "code_unit \<Rightarrow> bool" where
  "ascii_hex_digit c \<longleftrightarrow>
     ascii_digit c \<or> (0x41 \<le> c \<and> c \<le> 0x46) \<or> (0x61 \<le> c \<and> c \<le> 0x66)"

definition ascii_lower :: "code_unit \<Rightarrow> code_unit" where
  "ascii_lower c = (if 0x41 \<le> c \<and> c \<le> 0x5A then c + 0x20 else c)"

definition c0_control_or_space :: "code_unit \<Rightarrow> bool" where
  "c0_control_or_space c \<longleftrightarrow> c \<le> 0x20"

definition ascii_tab_or_newline :: "code_unit \<Rightarrow> bool" where
  "ascii_tab_or_newline c \<longleftrightarrow> c = 0x09 \<or> c = 0x0A \<or> c = 0x0D"

definition chr_colon :: code_unit where "chr_colon = 0x3A"
definition chr_slash :: code_unit where "chr_slash = 0x2F"
definition chr_backslash :: code_unit where "chr_backslash = 0x5C"
definition chr_question :: code_unit where "chr_question = 0x3F"
definition chr_hash :: code_unit where "chr_hash = 0x23"
definition chr_lbracket :: code_unit where "chr_lbracket = 0x5B"
definition chr_rbracket :: code_unit where "chr_rbracket = 0x5D"

definition forbidden_host_code_point :: "code_unit \<Rightarrow> bool" where
  "forbidden_host_code_point c \<longleftrightarrow>
     c = 0x00 \<or> c = 0x09 \<or> c = 0x0A \<or> c = 0x0D \<or> c = 0x20 \<or> c = 0x23 \<or> c = 0x2F \<or>
     c = 0x3A \<or> c = 0x3C \<or> c = 0x3E \<or> c = 0x3F \<or> c = 0x40 \<or> c = 0x5B \<or> c = 0x5C \<or>
     c = 0x5D \<or> c = 0x5E \<or> c = 0x7C"

definition forbidden_domain_code_point :: "code_unit \<Rightarrow> bool" where
  "forbidden_domain_code_point c \<longleftrightarrow>
     forbidden_host_code_point c \<or> c \<le> 0x1F \<or> c = 0x25 \<or> c = 0x7F"

subsection \<open>Numbers in hosts\<close>

definition digit_value :: "code_unit \<Rightarrow> nat" where
  "digit_value c =
     (if ascii_digit c then unat (c - 0x30)
      else if 0x41 \<le> c \<and> c \<le> 0x46 then unat (c - 0x37)
      else unat (c - 0x57))"

definition radix_digit :: "nat \<Rightarrow> code_unit \<Rightarrow> bool" where
  "radix_digit R c \<longleftrightarrow> ascii_hex_digit c \<and> digit_value c < R"

definition parse_radix :: "nat \<Rightarrow> jsstring \<Rightarrow> nat" where
  "parse_radix R ds = foldl (\<lambda>n c. n * R + digit_value c) 0 ds"

text \<open>Strictly split on a delimiter: every delimiter ends an item, empty items are kept.\<close>

fun strictly_split :: "code_unit \<Rightarrow> jsstring \<Rightarrow> jsstring list" where
  "strictly_split d [] = [[]]"
| "strictly_split d (c # cs) =
     (if c = d then [] # strictly_split d cs
      else (case strictly_split d cs of [] \<Rightarrow> [[c]] | p # ps \<Rightarrow> (c # p) # ps))"

text \<open>The IPv4 number parser: a \<open>0x\<close> prefix selects radix 16, a leading \<open>0\<close> radix 8.\<close>

definition ipv4_number_parser :: "jsstring \<Rightarrow> nat option" where
  "ipv4_number_parser input =
     (if input = [] then None
      else
        let (R, digits) =
          (if 2 \<le> length input \<and> hd input = 0x30 \<and> (input ! 1 = 0x78 \<or> input ! 1 = 0x58)
           then (16, drop 2 input)
           else if 2 \<le> length input \<and> hd input = 0x30 then (8, tl input)
           else (10, input))
        in if digits = [] then Some 0
           else if \<not> list_all (radix_digit R) digits then None
           else Some (parse_radix R digits))"

definition ends_in_a_number :: "jsstring \<Rightarrow> bool" where
  "ends_in_a_number input =
     (let parts = strictly_split chr_dot input in
      if last parts = [] \<and> length parts = 1 then False
      else
        let parts' = (if last parts = [] then butlast parts else parts);
            l = last parts'
        in (l \<noteq> [] \<and> list_all ascii_digit l) \<or> ipv4_number_parser l \<noteq> None)"

definition ipv4_parser :: "jsstring \<Rightarrow> nat option" where
  "ipv4_parser input =
     (let parts0 = strictly_split chr_dot input;
          parts = (if last parts0 = [] \<and> 1 < length parts0 then butlast parts0 else parts0)
      in if 4 < length parts then None
         else
           let results = map ipv4_number_parser parts in
           if None \<in> set results then None
           else
             let numbers = map the results in
             if \<exists>n \<in> set (butlast numbers). 255 < n then None
             else if 256 ^ (5 - length numbers) \<le> last numbers then None
             else Some (foldl (\<lambda>ip (n, i). ip + n * 256 ^ (3 - i))
                          (last numbers) (zip (butlast numbers) [0 ..< length numbers - 1])))"

subsection \<open>IPv6 addresses\<close>

text \<open>
  One part of an IPv4 address embedded in an IPv6 address: decimal digits without a
  leading zero, at most 255. The first argument is the value read so far.
\<close>

fun ipv6_ipv4_piece :: "nat option \<Rightarrow> jsstring \<Rightarrow> (nat \<times> jsstring) option" where
  "ipv6_ipv4_piece p [] = (case p of None \<Rightarrow> None | Some n \<Rightarrow> Some (n, []))"
| "ipv6_ipv4_piece p (c # cs) =
     (if ascii_digit c then
        (case p of
           None \<Rightarrow> ipv6_ipv4_piece (Some (digit_value c)) cs
         | Some n \<Rightarrow>
             if n = 0 then None
             else if 255 < n * 10 + digit_value c then None
             else ipv6_ipv4_piece (Some (n * 10 + digit_value c)) cs)
      else (case p of None \<Rightarrow> None | Some n \<Rightarrow> Some (n, c # cs)))"

lemma ipv6_ipv4_piece_length:
  "ipv6_ipv4_piece p input = Some (n, rest) \<Longrightarrow>
     length rest \<le> length input \<and> (p = None \<longrightarrow> length rest < length input)"
proof (induction p input rule: ipv6_ipv4_piece.induct)
  case (1 p)
  then show ?case by (simp split: option.splits)
next
  case (2 p c cs)
  show ?case
  proof (cases "ascii_digit c")
    case True
    with 2 show ?thesis by (cases p) (auto split: if_splits)
  next
    case False
    with "2.prems" show ?thesis by (cases p) auto
  qed
qed

function ipv6_ipv4 :: "nat list \<Rightarrow> nat \<Rightarrow> nat \<Rightarrow> jsstring \<Rightarrow> (nat list \<times> nat) option" where
  "ipv6_ipv4 address pieceIndex numbersSeen [] =
     (if numbersSeen \<noteq> 4 then None else Some (address, pieceIndex))"
| "ipv6_ipv4 address pieceIndex numbersSeen (c # cs) =
     (if 0 < numbersSeen \<and> \<not> (c = chr_dot \<and> numbersSeen < 4) then None
      else
        (case ipv6_ipv4_piece None (if 0 < numbersSeen then cs else c # cs) of
           None \<Rightarrow> None
         | Some (n, rest) \<Rightarrow>
             ipv6_ipv4 (address[pieceIndex := address ! pieceIndex * 0x100 + n])
               (if numbersSeen + 1 = 2 \<or> numbersSeen + 1 = 4 then pieceIndex + 1 else pieceIndex)
               (numbersSeen + 1) rest))"
  by pat_completeness auto
termination
proof (relation "measure (\<lambda>(address, pieceIndex, numbersSeen, input). length input)")
  show "wf (measure (\<lambda>(address, pieceIndex, numbersSeen, input). length input))"
    by simp
next
  fix address :: "nat list" and pieceIndex numbersSeen :: nat and c :: code_unit
    and cs :: jsstring and x2 :: "nat \<times> jsstring" and n :: nat and rest :: jsstring
  assume "ipv6_ipv4_piece None (if 0 < numbersSeen then cs else c # cs) = Some x2"
    and "(n, rest) = x2"
  then have "length rest < length (if 0 < numbersSeen then cs else c # cs)"
    using ipv6_ipv4_piece_length by metis
  then show "((address[pieceIndex := address ! pieceIndex * 0x100 + n],
       if numbersSeen + 1 = 2 \<or> numbersSeen + 1 = 4 then pieceIndex + 1 else pieceIndex,
       numbersSeen + 1, rest),
      address, pieceIndex, numbersSeen, c # cs)
     \<in> measure (\<lambda>(address, pieceIndex, numbersSeen, input). length input)"
    by (simp split: if_splits)
qed

text \<open>
  The main loop over the pieces: up to four hexadecimal digits each, separated by colons;
  \<open>::\<close> sets the compression index once; a dot after a piece re-reads it as the start of
  an embedded IPv4 address, which ends the loop.
\<close>

function ipv6_loop ::
  "nat list \<Rightarrow> nat \<Rightarrow> nat option \<Rightarrow> jsstring \<Rightarrow> (nat list \<times> nat \<times> nat option) option" where
  "ipv6_loop address pieceIndex compress [] = Some (address, pieceIndex, compress)"
| "ipv6_loop address pieceIndex compress (c # cs) =
     (if pieceIndex = 8 then None
      else if c = chr_colon then
        (if compress \<noteq> None then None
         else ipv6_loop address (pieceIndex + 1) (Some (pieceIndex + 1)) cs)
      else
        (case drop (length (takeWhile ascii_hex_digit (take 4 (c # cs)))) (c # cs) of
           [] \<Rightarrow>
             Some (address[pieceIndex :=
                     parse_radix 16 (takeWhile ascii_hex_digit (take 4 (c # cs)))],
                   pieceIndex + 1, compress)
         | d # rest \<Rightarrow>
             if d = chr_dot then
               (if takeWhile ascii_hex_digit (take 4 (c # cs)) = [] then None
                else if 6 < pieceIndex then None
                else (case ipv6_ipv4 address pieceIndex 0 (c # cs) of
                        None \<Rightarrow> None
                      | Some (a, i) \<Rightarrow> Some (a, i, compress)))
             else if d = chr_colon then
               (if rest = [] then None
                else ipv6_loop
                       (address[pieceIndex :=
                          parse_radix 16 (takeWhile ascii_hex_digit (take 4 (c # cs)))])
                       (pieceIndex + 1) compress rest)
             else None))"
  by pat_completeness auto
termination
proof (relation "measure (\<lambda>(address, pieceIndex, compress, input). length input)")
  show "wf (measure (\<lambda>(address, pieceIndex, compress, input). length input))"
    by simp
next
  fix address :: "nat list" and pieceIndex :: nat and compress :: "nat option"
    and c :: code_unit and cs :: jsstring
  show "((address, pieceIndex + 1, Some (pieceIndex + 1), cs),
         address, pieceIndex, compress, c # cs)
        \<in> measure (\<lambda>(address, pieceIndex, compress, input). length input)"
    by simp
next
  fix address :: "nat list" and pieceIndex :: nat and compress :: "nat option"
    and c d :: code_unit and cs rest :: jsstring
  assume "drop (length (takeWhile ascii_hex_digit (take 4 (c # cs)))) (c # cs) = d # rest"
  then have "length (d # rest) \<le> length (c # cs)"
    by (metis length_drop diff_le_self)
  then show "((address[pieceIndex :=
                 parse_radix 16 (takeWhile ascii_hex_digit (take 4 (c # cs)))],
          pieceIndex + 1, compress, rest),
         address, pieceIndex, compress, c # cs)
        \<in> measure (\<lambda>(address, pieceIndex, compress, input). length input)"
    by simp
qed

text \<open>
  The IPv6 parser: a leading colon must begin \<open>::\<close>; after the loop the pieces read after
  the compression index move to the end of the address; without compression all eight
  pieces must have been read.
\<close>

definition ipv6_parser :: "jsstring \<Rightarrow> nat list option" where
  "ipv6_parser input =
     (case (case input of
              [] \<Rightarrow> Some (0, None, [])
            | c # cs \<Rightarrow>
                if c = chr_colon then
                  (case cs of
                     [] \<Rightarrow> None
                   | d # ds \<Rightarrow> if d = chr_colon then Some (1, Some 1, ds) else None)
                else Some (0, None, input)) of
        None \<Rightarrow> None
      | Some (pieceIndex0, compress0, rest) \<Rightarrow>
          (case ipv6_loop (replicate 8 0) pieceIndex0 compress0 rest of
             None \<Rightarrow> None
           | Some (address, pieceIndex, compress) \<Rightarrow>
               (case compress of
                  Some k \<Rightarrow>
                    Some (take k address @ replicate (8 - pieceIndex) 0 @
                          take (pieceIndex - k) (drop k address))
                | None \<Rightarrow> if pieceIndex \<noteq> 8 then None else Some address)))"

subsection \<open>The host parser\<close>

definition opaque_host_parser :: "jsstring \<Rightarrow> host option" where
  "opaque_host_parser input =
     (if \<exists>c \<in> set input. forbidden_host_code_point c then None
      else if input = [] then Some EmptyHost
      else Some (OpaqueHost input))"

text \<open>
  A plain ASCII domain: ASCII only, no percent sign, and no label starting with \<open>xn--\<close>
  in any letter case.
\<close>

definition plain_ascii_domain :: "jsstring \<Rightarrow> bool" where
  "plain_ascii_domain input \<longleftrightarrow>
     list_all (\<lambda>c. c < 0x80 \<and> c \<noteq> 0x25) input \<and>
     list_all (\<lambda>label. map ascii_lower (take 4 label) \<noteq> js ''xn--'')
       (strictly_split chr_dot input)"

text \<open>
  Percent-decoding, UTF-8 decoding and domain-to-ASCII of the host. On a plain ASCII domain
  the first two change nothing and Unicode ToASCII (with the non-strict flags the parser
  passes) is ASCII lowercasing, as the Standard notes. For every other host the result
  depends on the Unicode IDNA mapping table, which is taken as the parameter \<open>toASCII\<close>:
  it returns \<open>None\<close> for a failure value.
\<close>

definition domain_to_ascii :: "(jsstring \<Rightarrow> jsstring option) \<Rightarrow> jsstring \<Rightarrow> jsstring option" where
  "domain_to_ascii toASCII input =
     (if plain_ascii_domain input then Some (map ascii_lower input) else toASCII input)"

definition host_parser ::
  "(jsstring \<Rightarrow> jsstring option) \<Rightarrow> jsstring \<Rightarrow> bool \<Rightarrow> host option" where
  "host_parser toASCII input isOpaque =
     (if input \<noteq> [] \<and> hd input = chr_lbracket then
        (if last input \<noteq> chr_rbracket then None
         else map_option IPv6 (ipv6_parser (butlast (tl input))))
      else if isOpaque then opaque_host_parser input
      else
        (case domain_to_ascii toASCII input of
           None \<Rightarrow> None
         | Some asciiDomain \<Rightarrow>
             if asciiDomain = [] then None
             else if \<exists>c \<in> set asciiDomain. forbidden_domain_code_point c then None
             else if ends_in_a_number asciiDomain then map_option IPv4 (ipv4_parser asciiDomain)
             else Some (Domain asciiDomain)))"

subsection \<open>The parser states\<close>

definition special_scheme :: "jsstring \<Rightarrow> bool" where
  "special_scheme s \<longleftrightarrow>
     s = js ''ftp'' \<or> s = js ''file'' \<or> s = js ''http'' \<or> s = js ''https'' \<or>
     s = js ''ws'' \<or> s = js ''wss''"

definition default_port :: "jsstring \<Rightarrow> nat option" where
  "default_port s =
     (if s = js ''ftp'' then Some 21
      else if s = js ''http'' \<or> s = js ''ws'' then Some 80
      else if s = js ''https'' \<or> s = js ''wss'' then Some 443
      else None)"

definition is_special :: "URL_record \<Rightarrow> bool" where
  "is_special url = special_scheme (scheme url)"

text \<open>
  The code points that end the authority, the host and the port: \<open>/\<close>, \<open>?\<close>, \<open>#\<close>, and
  \<open>\\<close> in a special URL (the end of the input is the empty list).
\<close>

definition authority_end :: "URL_record \<Rightarrow> code_unit \<Rightarrow> bool" where
  "authority_end url c \<longleftrightarrow>
     c = chr_slash \<or> c = chr_question \<or> c = chr_hash \<or> (is_special url \<and> c = chr_backslash)"

text \<open>
  Path start state, path state, opaque path state, query state and fragment state consume
  the rest of the input without ever returning failure.
\<close>

definition path_start_state :: "URL_record \<Rightarrow> jsstring \<Rightarrow> URL_record option" where
  "path_start_state url input = Some url"

definition path_state :: "URL_record \<Rightarrow> jsstring \<Rightarrow> URL_record option" where
  "path_state url input = Some url"

definition opaque_path_state :: "URL_record \<Rightarrow> jsstring \<Rightarrow> URL_record option" where
  "opaque_path_state url input = Some url"

text \<open>Port state: the buffer collects digits; a port above 65535 is a failure.\<close>

definition port_done :: "URL_record \<Rightarrow> jsstring \<Rightarrow> jsstring \<Rightarrow> URL_record option" where
  "port_done url buffer input =
     (if buffer \<noteq> [] then
        (if 65535 < parse_radix 10 buffer then None
         else path_start_state
                (url\<lparr>port := (if default_port (scheme url) = Some (parse_radix 10 buffer)
                                then None else Some (parse_radix 10 buffer))\<rparr>) input)
      else path_start_state url input)"

fun port_state :: "URL_record \<Rightarrow> jsstring \<Rightarrow> jsstring \<Rightarrow> URL_record option" where
  "port_state url buffer [] = port_done url buffer []"
| "port_state url buffer (c # cs) =
     (if ascii_digit c then port_state url (buffer @ [c]) cs
      else if authority_end url c then port_done url buffer (c # cs)
      else None)"

text \<open>
  Host state: the buffer collects the host up to a colon outside brackets or up to the end
  of the authority; an empty host is a failure before a port and in a special URL.
\<close>

definition host_done ::
  "(jsstring \<Rightarrow> jsstring option) \<Rightarrow> URL_record \<Rightarrow> jsstring \<Rightarrow> jsstring \<Rightarrow> URL_record option" where
  "host_done toASCII url buffer input =
     (if is_special url \<and> buffer = [] then None
      else
        (case host_parser toASCII buffer (\<not> is_special url) of
           None \<Rightarrow> None
         | Some h \<Rightarrow> path_start_state (url\<lparr>host := Some h\<rparr>) input))"

fun host_state ::
  "(jsstring \<Rightarrow> jsstring option) \<Rightarrow> URL_record \<Rightarrow> bool \<Rightarrow> jsstring \<Rightarrow> jsstring \<Rightarrow>
     URL_record option" where
  "host_state toASCII url insideBrackets buffer [] = host_done toASCII url buffer []"
| "host_state toASCII url insideBrackets buffer (c # cs) =
     (if c = chr_colon \<and> \<not> insideBrackets then
        (if buffer = [] then None
         else
           (case host_parser toASCII buffer (\<not> is_special url) of
              None \<Rightarrow> None
            | Some h \<Rightarrow> port_state (url\<lparr>host := Some h\<rparr>) [] cs))
      else if authority_end url c then host_done toASCII url buffer (c # cs)
      else
        host_state toASCII url
          (if c = chr_lbracket then True else if c = chr_rbracket then False
           else insideBrackets)
          (buffer @ [c]) cs)"

text \<open>
  Authority state: every \<open>@\<close> turns the buffer into credentials and empties it; at the end
  of the authority the parser goes back over the buffer in host state. Credentials with
  nothing after them are a failure.
\<close>

definition authority_done ::
  "(jsstring \<Rightarrow> jsstring option) \<Rightarrow> URL_record \<Rightarrow> bool \<Rightarrow> jsstring \<Rightarrow> jsstring \<Rightarrow>
     URL_record option" where
  "authority_done toASCII url atSignSeen buffer input =
     (if atSignSeen \<and> buffer = [] then None
      else host_state toASCII url False [] (buffer @ input))"

fun authority_state ::
  "(jsstring \<Rightarrow> jsstring option) \<Rightarrow> URL_record \<Rightarrow> bool \<Rightarrow> jsstring \<Rightarrow> jsstring \<Rightarrow>
     URL_record option" where
  "authority_state toASCII url atSignSeen buffer [] =
     authority_done toASCII url atSignSeen buffer []"
| "authority_state toASCII url atSignSeen buffer (c # cs) =
     (if c = chr_at then authority_state toASCII url True [] cs
      else if authority_end url c then authority_done toASCII url atSignSeen buffer (c # cs)
      else authority_state toASCII url atSignSeen (buffer @ [c]) cs)"

text \<open>Special authority ignore slashes state: skips every \<open>/\<close> and \<open>\\<close>.\<close>

fun special_authority_ignore_slashes_state ::
  "(jsstring \<Rightarrow> jsstring option) \<Rightarrow> URL_record \<Rightarrow> jsstring \<Rightarrow> URL_record option" where
  "special_authority_ignore_slashes_state toASCII url [] =
     authority_state toASCII url False [] []"
| "special_authority_ignore_slashes_state toASCII url (c # cs) =
     (if c \<noteq> chr_slash \<and> c \<noteq> chr_backslash then authority_state toASCII url False [] (c # cs)
      else special_authority_ignore_slashes_state toASCII url cs)"

text \<open>Special authority slashes state: \<open>//\<close> is expected and its absence tolerated.\<close>

definition special_authority_slashes_state ::
  "(jsstring \<Rightarrow> jsstring option) \<Rightarrow> URL_record \<Rightarrow> jsstring \<Rightarrow> URL_record option" where
  "special_authority_slashes_state toASCII url input =
     (case input of
        c # d # rest \<Rightarrow>
          if c = chr_slash \<and> d = chr_slash
          then special_authority_ignore_slashes_state toASCII url rest
          else special_authority_ignore_slashes_state toASCII url input
      | _ \<Rightarrow> special_authority_ignore_slashes_state toASCII url input)"

text \<open>Path or authority state (after the first \<open>/\<close> of a non-special URL).\<close>

definition path_or_authority_state ::
  "(jsstring \<Rightarrow> jsstring option) \<Rightarrow> URL_record \<Rightarrow> jsstring \<Rightarrow> URL_record option" where
  "path_or_authority_state toASCII url input =
     (case input of
        [] \<Rightarrow> path_state url input
      | c # cs \<Rightarrow> if c = chr_slash then authority_state toASCII url False [] cs
                 else path_state url input)"

text \<open>
  File host state: a Windows drive letter in the buffer belongs to the path; the host
  \<open>localhost\<close> becomes the empty host.
\<close>

definition windows_drive_letter :: "jsstring \<Rightarrow> bool" where
  "windows_drive_letter b \<longleftrightarrow>
     length b = 2 \<and> ascii_alpha (b ! 0) \<and> (b ! 1 = chr_colon \<or> b ! 1 = 0x7C)"

definition file_host_done ::
  "(jsstring \<Rightarrow> jsstring option) \<Rightarrow> URL_record \<Rightarrow> jsstring \<Rightarrow> jsstring \<Rightarrow> URL_record option" where
  "file_host_done toASCII url buffer input =
     (if windows_drive_letter buffer then path_state url (buffer @ input)
      else if buffer = [] then path_start_state (url\<lparr>host := Some EmptyHost\<rparr>) input
      else
        (case host_parser toASCII buffer (\<not> is_special url) of
           None \<Rightarrow> None
         | Some h \<Rightarrow>
             path_start_state
               (url\<lparr>host := Some (if h = Domain (js ''localhost'') then EmptyHost else h)\<rparr>)
               input))"

fun file_host_state ::
  "(jsstring \<Rightarrow> jsstring option) \<Rightarrow> URL_record \<Rightarrow> jsstring \<Rightarrow> jsstring \<Rightarrow> URL_record option" where
  "file_host_state toASCII url buffer [] = file_host_done toASCII url buffer []"
| "file_host_state toASCII url buffer (c # cs) =
     (if c = chr_slash \<or> c = chr_backslash \<or> c = chr_question \<or> c = chr_hash
      then file_host_done toASCII url buffer (c # cs)
      else file_host_state toASCII url (buffer @ [c]) cs)"

definition file_slash_state ::
  "(jsstring \<Rightarrow> jsstring option) \<Rightarrow> URL_record \<Rightarrow> jsstring \<Rightarrow> URL_record option" where
  "file_slash_state toASCII url input =
     (case input of
        [] \<Rightarrow> path_state url input
      | c # cs \<Rightarrow>
          if c = chr_slash \<or> c = chr_backslash then file_host_state toASCII url [] cs
          else path_state url input)"

text \<open>File state, without a base URL: the host starts as the empty host.\<close>

definition file_state ::
  "(jsstring \<Rightarrow> jsstring option) \<Rightarrow> URL_record \<Rightarrow> jsstring \<Rightarrow> URL_record option" where
  "file_state toASCII url input =
     (case input of
        [] \<Rightarrow> path_state (url\<lparr>host := Some EmptyHost\<rparr>) input
      | c # cs \<Rightarrow>
          if c = chr_slash \<or> c = chr_backslash
          then file_slash_state toASCII (url\<lparr>host := Some EmptyHost\<rparr>) cs
          else path_state (url\<lparr>host := Some EmptyHost\<rparr>) input)"

text \<open>No scheme state: without a base URL the parser returns failure.\<close>

definition no_scheme_state :: "URL_record option" where
  "no_scheme_state = None"

text \<open>
  Scheme state: the buffer holds the lowercased scheme read so far; the colon ends it and
  selects the next state by the scheme.
\<close>

definition scheme_done ::
  "(jsstring \<Rightarrow> jsstring option) \<Rightarrow> jsstring \<Rightarrow> jsstring \<Rightarrow> URL_record option" where
  "scheme_done toASCII buffer remaining =
     (let url = \<lparr>scheme = buffer, host = None, port = None\<rparr> in
      if buffer = js ''file'' then file_state toASCII url remaining
      else if is_special url then special_authority_slashes_state toASCII url remaining
      else if remaining \<noteq> [] \<and> hd remaining = chr_slash
      then path_or_authority_state toASCII url (tl remaining)
      else opaque_path_state url remaining)"

fun scheme_state ::
  "(jsstring \<Rightarrow> jsstring option) \<Rightarrow> jsstring \<Rightarrow> jsstring \<Rightarrow> URL_record option" where
  "scheme_state toASCII buffer [] = no_scheme_state"
| "scheme_state toASCII buffer (c # cs) =
     (if ascii_alphanumeric c \<or> c = 0x2B \<or> c = 0x2D \<or> c = 0x2E
      then scheme_state toASCII (buffer @ [ascii_lower c]) cs
      else if c = chr_colon then scheme_done toASCII buffer cs
      else no_scheme_state)"

definition scheme_start_state ::
  "(jsstring \<Rightarrow> jsstring option) \<Rightarrow> jsstring \<Rightarrow> URL_record option" where
  "scheme_start_state toASCII input =
     (case input of
        [] \<Rightarrow> no_scheme_state
      | c # cs \<Rightarrow> if ascii_alpha c then scheme_state toASCII [ascii_lower c] cs
                 else no_scheme_state)"

text \<open>
  The basic URL parser: leading and trailing C0 controls and spaces are removed, then all
  ASCII tabs and newlines, and the state machine starts in scheme start state.
\<close>

definition strip_and_remove :: "jsstring \<Rightarrow> jsstring" where
  "strip_and_remove input =
     filter (\<lambda>c. \<not> ascii_tab_or_newline c)
       (rev (dropWhile c0_control_or_space (rev (dropWhile c0_control_or_space input))))"

definition basic_URL_parser ::
  "(jsstring \<Rightarrow> jsstring option) \<Rightarrow> jsstring \<Rightarrow> URL_record option" where
  "basic_URL_parser toASCII input = scheme_start_state toASCII (strip_and_remove input)"

text \<open>\<^verbatim>\<open>new URL(url)\<close>: a \<open>TypeError\<close> is thrown on failure.\<close>

definition new_URL ::
  "(jsstring \<Rightarrow> jsstring option) \<Rightarrow> jsstring \<Rightarrow> js_error + URL_record" where
  "new_URL toASCII url =
     (case basic_URL_parser toASCII url of None \<Rightarrow> Inl TypeError | Some u \<Rightarrow> Inr u)"

text \<open>
  \<^verbatim>\<open>const validateUrl = (url: string) => {
    try { new URL(url); return true; } catch { return false; }
  };\<close>
\<close>

definition validateUrl :: "(jsstring \<Rightarrow> jsstring option) \<Rightarrow> jsstring \<Rightarrow> bool" where
  "validateUrl toASCII url = (case new_URL toASCII url of Inr u \<Rightarrow> True | Inl e \<Rightarrow> False)"

section \<open>Values received from the backend\<close>

text \<open>
  The values \<^verbatim>\<open>response.json()\<close> can resolve to. A finite number is represented by its
  mathematical value (both zeros by \<open>0\<close>).
\<close>

datatype jsnumber = NaN | PosInfinity | NegInfinity | Finite real

datatype jsvalue =
    Undefined
  | Null
  | Boolean bool
  | Number jsnumber
  | String jsstring
  | Array "jsvalue list"
  | Object "(jsstring \<times> jsvalue) list"

text \<open>ToBoolean, the truthiness test of \<^verbatim>\<open>if (result.ok)\<close>.\<close>

fun ToBoolean :: "jsvalue \<Rightarrow> bool" where
  "ToBoolean Undefined = False"
| "ToBoolean Null = False"
| "ToBoolean (Boolean b) = b"
| "ToBoolean (Number n) = (n \<noteq> NaN \<and> n \<noteq> Finite 0)"
| "ToBoolean (String s) = (s \<noteq> [])"
| "ToBoolean (Array xs) = True"
| "ToBoolean (Object ps) = True"

text \<open>
  The property read \<^verbatim>\<open>result.ok\<close>: a \<open>TypeError\<close> on \<open>null\<close> and \<open>undefined\<close>, the own
  property of an object when it has one, and \<open>undefined\<close> otherwise (no built-in
  prototype has a property \<open>ok\<close>).
\<close>

fun get_ok :: "jsvalue \<Rightarrow> js_error + jsvalue" where
  "get_ok Undefined = Inl TypeError"
| "get_ok Null = Inl TypeError"
| "get_ok (Object ps) = Inr (case map_of ps (js ''ok'') of None \<Rightarrow> Undefined | Some v \<Rightarrow> v)"
| "get_ok v = Inr Undefined"

text \<open>
  How the request ends: \<^verbatim>\<open>fetch\<close> rejects (a network-level fault), or it resolves to a
  response with a status and a body that \<^verbatim>\<open>response.json()\<close> either parses or rejects.
  The handler waits twice, for the response and for its body; between the two it neither
  reads nor writes the component's state, so both waits are taken as one.
\<close>

datatype fetch_result =
    NetworkFailure
  | Response (status: nat) (json: "js_error + jsvalue")

text \<open>\<^verbatim>\<open>response.ok\<close>: the status is in the range 200 to 299.\<close>

definition response_ok :: "nat \<Rightarrow> bool" where
  "response_ok st \<longleftrightarrow> 200 \<le> st \<and> st \<le> 299"

section \<open>\<open>JSON.stringify\<close> of the request body\<close>

definition hex_digit :: "nat \<Rightarrow> code_unit" where
  "hex_digit n = (if n < 10 then 0x30 + of_nat n else 0x57 + of_nat n)"

text \<open>UnicodeEscape: a backslash, \<open>u\<close> and four lowercase hexadecimal digits.\<close>

definition UnicodeEscape :: "code_unit \<Rightarrow> jsstring" where
  "UnicodeEscape c =
     [0x5C, 0x75] @ map (\<lambda>i. hex_digit (unat c div 16 ^ i mod 16)) [3, 2, 1, 0]"

definition leading_surrogate :: "code_unit \<Rightarrow> bool" where
  "leading_surrogate c \<longleftrightarrow> 0xD800 \<le> c \<and> c \<le> 0xDBFF"

definition trailing_surrogate :: "code_unit \<Rightarrow> bool" where
  "trailing_surrogate c \<longleftrightarrow> 0xDC00 \<le> c \<and> c \<le> 0xDFFF"

definition quote_unit :: "code_unit \<Rightarrow> jsstring" where
  "quote_unit c =
     (if c = 0x08 then [0x5C, 0x62]
      else if c = 0x09 then [0x5C, 0x74]
      else if c = 0x0A then [0x5C, 0x6E]
      else if c = 0x0C then [0x5C, 0x66]
      else if c = 0x0D then [0x5C, 0x72]
      else if c = 0x22 then [0x5C, 0x22]
      else if c = 0x5C then [0x5C, 0x5C]
      else if c < 0x20 \<or> leading_surrogate c \<or> trailing_surrogate c then UnicodeEscape c
      else [c])"

text \<open>
  The code points of the string in order: a surrogate pair is copied, every other code
  unit is escaped or copied by \<open>quote_unit\<close>.
\<close>

fun quote_units :: "jsstring \<Rightarrow> jsstring" where
  "quote_units [] = []"
| "quote_units [c] = quote_unit c"
| "quote_units (c # d # cs) =
     (if leading_surrogate c \<and> trailing_surrogate d then c # d # quote_units cs
      else quote_unit c @ quote_units (d # cs))"

definition QuoteJSONString :: "jsstring \<Rightarrow> jsstring" where
  "QuoteJSONString v = [0x22] @ quote_units v @ [0x22]"

text \<open>
  \<^verbatim>\<open>JSON.stringify\<close> on an object literal whose property values are strings, without
  indentation: the properties in order, separated by commas, within braces.
\<close>

fun stringify_properties :: "(jsstring \<times> jsstring) list \<Rightarrow> jsstring" where
  "stringify_properties [] = []"
| "stringify_properties [(k, v)] = QuoteJSONString k @ [0x3A] @ QuoteJSONString v"
| "stringify_properties ((k, v) # p # ps) =
     QuoteJSONString k @ [0x3A] @ QuoteJSONString v @ [0x2C] @ stringify_properties (p # ps)"

definition JSON_stringify :: "(jsstring \<times> jsstring) list \<Rightarrow> jsstring" where
  "JSON_stringify ps = [0x7B] @ stringify_properties ps @ [0x7D]"

subsection \<open>Reading the body back\<close>






section \<open>The component\<close>

text \<open>\<^verbatim>\<open>interface FormData { email: string; article_url: string; }\<close>\<close>

record FormData =
  email :: jsstring
  article_url :: jsstring

text \<open>\<^verbatim>\<open>keyof FormData\<close>\<close>

datatype field = Email | Article_url

text \<open>The argument of \<^verbatim>\<open>toast\<close>; \<open>variant\<close> is absent on the success notification.\<close>

record toast_args =
  title :: string
  description :: string
  variant :: "string option"

text \<open>The arguments of a \<^verbatim>\<open>fetch\<close> call.\<close>

record fetch_call =
  resource :: jsstring
  http_method :: jsstring
  headers :: "(jsstring \<times> jsstring) list"
  body :: jsstring

text \<open>
  The component's state: the three \<^verbatim>\<open>useState\<close> cells, and, as the record of its
  effects, the notifications shown so far, the \<^verbatim>\<open>fetch\<close> calls made so far and the number
  of those calls whose handler has not finished yet.
\<close>

record State =
  formData :: FormData
  isLoading :: bool
  isSuccess :: bool
  toasts :: "toast_args list"
  fetches :: "fetch_call list"
  outstanding :: nat

definition initial_State :: State where
  "initial_State =
     \<lparr>formData = \<lparr>email = [], article_url = []\<rparr>, isLoading = False, isSuccess = False,
      toasts = [], fetches = [], outstanding = 0\<rparr>"

definition setFormData :: "(FormData \<Rightarrow> FormData) \<Rightarrow> State \<Rightarrow> State" where
  "setFormData f s = s\<lparr>formData := f (formData s)\<rparr>"

definition setIsLoading :: "bool \<Rightarrow> State \<Rightarrow> State" where
  "setIsLoading b s = s\<lparr>isLoading := b\<rparr>"

definition setIsSuccess :: "bool \<Rightarrow> State \<Rightarrow> State" where
  "setIsSuccess b s = s\<lparr>isSuccess := b\<rparr>"

definition toast :: "toast_args \<Rightarrow> State \<Rightarrow> State" where
  "toast t s = s\<lparr>toasts := toasts s @ [t]\<rparr>"

definition fetch :: "fetch_call \<Rightarrow> State \<Rightarrow> State" where
  "fetch call s = s\<lparr>fetches := fetches s @ [call], outstanding := outstanding s + 1\<rparr>"

text \<open>
  \<^verbatim>\<open>const handleInputChange = (field: keyof FormData, value: string) => {
    setFormData(prev => ({ ...prev, [field]: value }));
  };\<close>
\<close>

definition handleInputChange :: "field \<Rightarrow> jsstring \<Rightarrow> State \<Rightarrow> State" where
  "handleInputChange field v =
     setFormData (\<lambda>prev. case field of
                           Email \<Rightarrow> prev\<lparr>email := v\<rparr>
                         | Article_url \<Rightarrow> prev\<lparr>article_url := v\<rparr>)"

subsection \<open>\<open>handleSubmit\<close>\<close>

definition invalid_email_toast :: toast_args where
  "invalid_email_toast =
     \<lparr>title = ''Invalid Email'', description = ''Please enter a valid email address.'',
      variant = Some ''destructive''\<rparr>"

definition invalid_url_toast :: toast_args where
  "invalid_url_toast =
     \<lparr>title = ''Invalid URL'', description = ''Please enter a valid article URL.'',
      variant = Some ''destructive''\<rparr>"

definition success_toast :: toast_args where
  "success_toast =
     \<lparr>title = ''Success'', description = ''Your request has been submitted successfully!'',
      variant = None\<rparr>"

definition error_toast :: toast_args where
  "error_toast =
     \<lparr>title = ''Error'',
      description = ''Failed to submit request. Please make sure the backend is running.'',
      variant = Some ''destructive''\<rparr>"

text \<open>The \<^verbatim>\<open>fetch\<close> call of \<open>handleSubmit\<close>, built from the form data.\<close>

definition submit_call :: "FormData \<Rightarrow> fetch_call" where
  "submit_call fd =
     \<lparr>resource = js ''http://localhost:8000/submit'',
      http_method = js ''POST'',
      headers = [(js ''Content-Type'', js ''application/json''),
                 (js ''accept'', js ''application/json'')],
      body = JSON_stringify [(js ''email'', email fd), (js ''article_url'', article_url fd)]\<rparr>"

text \<open>
  \<open>handleSubmit\<close> up to \<^verbatim>\<open>await fetch(...)\<close>: the two validation guards, each with its
  notification and \<^verbatim>\<open>return\<close>, then \<^verbatim>\<open>setIsLoading(true)\<close> and the \<^verbatim>\<open>fetch\<close> call.
\<close>

definition handleSubmit_start :: "(jsstring \<Rightarrow> jsstring option) \<Rightarrow> State \<Rightarrow> State" where
  "handleSubmit_start toASCII s =
     (if \<not> validateEmail (email (formData s)) then toast invalid_email_toast s
      else if \<not> validateUrl toASCII (article_url (formData s)) then toast invalid_url_toast s
      else fetch (submit_call (formData s)) (setIsLoading True s))"

text \<open>
  The \<^verbatim>\<open>try\<close> block from the point where the request ends: \<open>Inl\<close> is the exception that
  leaves the block (no state is changed before any \<^verbatim>\<open>throw\<close>), \<open>Inr\<close> its normal end.
\<close>

definition try_block :: "fetch_result \<Rightarrow> State \<Rightarrow> js_error + State" where
  "try_block r s =
     (case r of
        NetworkFailure \<Rightarrow> Inl TypeError
      | Response st parsed \<Rightarrow>
          if \<not> response_ok st then Inl (Error ''Failed to submit request'')
          else
            (case parsed of
               Inl e \<Rightarrow> Inl e
             | Inr result \<Rightarrow>
                 (case get_ok result of
                    Inl e \<Rightarrow> Inl e
                  | Inr ok \<Rightarrow>
                      if ToBoolean ok then Inr (toast success_toast (setIsSuccess True s))
                      else Inl (Error ''Server returned an error''))))"

text \<open>
  The rest of \<open>handleSubmit\<close>: the \<^verbatim>\<open>try\<close> block, the \<^verbatim>\<open>catch\<close> clause with the error
  notification, and \<^verbatim>\<open>finally { setIsLoading(false); }\<close>. The call is then no longer
  outstanding.
\<close>

definition handleSubmit_finish :: "fetch_result \<Rightarrow> State \<Rightarrow> State" where
  "handleSubmit_finish r s =
     (setIsLoading False
        (case try_block r s of
           Inl e \<Rightarrow> toast error_toast s
         | Inr s' \<Rightarrow> s'))\<lparr>outstanding := outstanding s - 1\<rparr>"

text \<open>
  \<^verbatim>\<open>const resetForm = () => {
    setFormData({ email: "", article_url: "" });
    setIsSuccess(false);
  };\<close>
\<close>

definition resetForm :: "State \<Rightarrow> State" where
  "resetForm s = setIsSuccess False (setFormData (\<lambda>prev. \<lparr>email = [], article_url = []\<rparr>) s)"

subsection \<open>The rendered view and the events it offers\<close>

text \<open>
  The JSX of the component: the success panel with the reset button when \<open>isSuccess\<close>,
  otherwise the form with its two inputs and the submit button, which is disabled and
  relabelled while \<open>isLoading\<close>.
\<close>

datatype view =
    SuccessPanel
  | SubmissionForm (email_value: jsstring) (url_value: jsstring)
      (submit_disabled: bool) (submit_label: string)

definition render :: "State \<Rightarrow> view" where
  "render s =
     (if isSuccess s then SuccessPanel
      else SubmissionForm (email (formData s)) (article_url (formData s)) (isLoading s)
             (if isLoading s then ''Processing...'' else ''Submit Request''))"

text \<open>
  The three view statuses of the specification, read off the state as the JSX does.
\<close>

datatype ViewStatus = Idle | Submitting | Succeeded

definition viewStatus :: "State \<Rightarrow> ViewStatus" where
  "viewStatus s = (if isSuccess s then Succeeded else if isLoading s then Submitting else Idle)"

text \<open>
  The events of the component: typing into an input, submitting the form, the end of an
  outstanding request, and a click on the reset button. An event of the user is possible
  when the rendered view offers its control: the inputs and the enabled submit button of
  the form, the reset button of the success panel. Each handler runs without interruption
  up to the point where it waits, and the view is rendered from the state before the next
  event. The browser's own checks of the \<open>required\<close>, \<open>email\<close> and \<open>url\<close> inputs can only
  hold back submit events and are left out.
\<close>

datatype event =
    Change field jsstring
  | Submit
  | Finish fetch_result
  | Reset

fun enabled :: "State \<Rightarrow> event \<Rightarrow> bool" where
  "enabled s (Change f v) = (render s \<noteq> SuccessPanel)"
| "enabled s Submit = (render s \<noteq> SuccessPanel \<and> \<not> submit_disabled (render s))"
| "enabled s (Finish r) = (0 < outstanding s)"
| "enabled s Reset = (render s = SuccessPanel)"

fun fire :: "(jsstring \<Rightarrow> jsstring option) \<Rightarrow> event \<Rightarrow> State \<Rightarrow> State" where
  "fire toASCII (Change f v) s = handleInputChange f v s"
| "fire toASCII Submit s = handleSubmit_start toASCII s"
| "fire toASCII (Finish r) s = handleSubmit_finish r s"
| "fire toASCII Reset s = resetForm s"

inductive reachable :: "(jsstring \<Rightarrow> jsstring option) \<Rightarrow> State \<Rightarrow> bool"
  for toASCII :: "jsstring \<Rightarrow> jsstring option" where
  initial: "reachable toASCII initial_State"
| step: "reachable toASCII s \<Longrightarrow> enabled s e \<Longrightarrow> reachable toASCII (fire toASCII e s)"

section \<open>Vocabulary of the properties\<close>




text \<open>
  Concrete runs of the component, on a platform whose IDNA table maps no host
  (\<open>no_IDNA\<close>; the hosts below are plain ASCII and never reach it): the form filled in
  with a valid email address and a valid URL, the same form submitted, and the outcome of
  the backend answering \<^verbatim>\<open>200 {"ok": true}\<close>.
\<close>

definition no_IDNA :: "jsstring \<Rightarrow> jsstring option" where
  "no_IDNA d = None"

definition filled_State :: State where
  "filled_State =
     handleInputChange Article_url (js ''https://example.com/a'')
       (handleInputChange Email (js ''user@example.com'') initial_State)"

definition submitting_State :: State where
  "submitting_State = handleSubmit_start no_IDNA filled_State"



definition ok_true :: jsvalue where
  "ok_true = Object [(js ''ok'', Boolean True)]"

definition succeeded_State :: State where
  "succeeded_State = handleSubmit_finish (Response 200 (Inr ok_true)) submitting_State"

section \<open>Properties of \<open>validateEmail\<close>\<close>

lemma rx_match_One:
  "rx_match (One p # r) s \<longleftrightarrow> (\<exists>c t. s = c # t \<and> p c \<and> rx_match r t)"
  by (cases s) auto

lemma rx_match_OneOrMore:
  "rx_match (OneOrMore p # r) s \<longleftrightarrow>
     (\<exists>a t. s = a @ t \<and> a \<noteq> [] \<and> list_all p a \<and> rx_match r t)"
proof (induction s)
  case Nil
  show ?case by simp
next
  case (Cons c s)
  show ?case
  proof
    assume m: "rx_match (OneOrMore p # r) (c # s)"
    then have pc: "p c" by simp
    from m consider "rx_match (OneOrMore p # r) s" | "rx_match r s" by auto
    then show "\<exists>a t. c # s = a @ t \<and> a \<noteq> [] \<and> list_all p a \<and> rx_match r t"
    proof cases
      case 1
      with Cons.IH obtain a t where "s = a @ t" "list_all p a" "rx_match r t" by blast
      with pc have "c # s = (c # a) @ t \<and> c # a \<noteq> [] \<and> list_all p (c # a) \<and> rx_match r t"
        by simp
      then show ?thesis by blast
    next
      case 2
      with pc have "c # s = [c] @ s \<and> [c] \<noteq> [] \<and> list_all p [c] \<and> rx_match r s" by simp
      then show ?thesis by blast
    qed
  next
    assume "\<exists>a t. c # s = a @ t \<and> a \<noteq> [] \<and> list_all p a \<and> rx_match r t"
    then obtain a t where at: "c # s = a @ t" "a \<noteq> []" "list_all p a" "rx_match r t" by blast
    then obtain a' where a: "a = c # a'" by (cases a) auto
    with at have s: "s = a' @ t" and pc: "p c" and pa: "list_all p a'" by auto
    show "rx_match (OneOrMore p # r) (c # s)"
    proof (cases "a' = []")
      case True
      with s at pc show ?thesis by simp
    next
      case False
      with s pa at Cons.IH have "rx_match (OneOrMore p # r) s" by blast
      with pc show ?thesis by simp
    qed
  qed
qed

lemma validateEmail_shape:
  "validateEmail s \<longleftrightarrow>
     (\<exists>a b c. s = a @ chr_at # b @ chr_dot # c \<and> a \<noteq> [] \<and> b \<noteq> [] \<and> c \<noteq> [] \<and>
        list_all not_space_at a \<and> list_all not_space_at b \<and> list_all not_space_at c)"
  (is "?L \<longleftrightarrow> ?R")
proof
  assume ?L
  then show ?R
    unfolding validateEmail_def emailRegex_def
    by (simp only: rx_match_OneOrMore rx_match_One rx_match.simps(1)) auto
next
  assume ?R
  then obtain a b c where s: "s = a @ chr_at # b @ chr_dot # c"
    and ne: "a \<noteq> []" "b \<noteq> []" "c \<noteq> []"
    and ok: "list_all not_space_at a" "list_all not_space_at b" "list_all not_space_at c"
    by blast
  have 1: "rx_match [OneOrMore not_space_at] c"
    using ne ok by (subst rx_match_OneOrMore) simp
  have 2: "rx_match [One (\<lambda>c. c = chr_dot), OneOrMore not_space_at] (chr_dot # c)"
    using 1 by simp
  have 3: "rx_match [OneOrMore not_space_at, One (\<lambda>c. c = chr_dot), OneOrMore not_space_at]
             (b @ chr_dot # c)"
    using ne ok 2 by (subst rx_match_OneOrMore) blast
  have 4: "rx_match [One (\<lambda>c. c = chr_at), OneOrMore not_space_at, One (\<lambda>c. c = chr_dot),
             OneOrMore not_space_at] (chr_at # b @ chr_dot # c)"
    using 3 by simp
  have "rx_match emailRegex (a @ chr_at # b @ chr_dot # c)"
    unfolding emailRegex_def using ne ok 4 by (subst rx_match_OneOrMore) blast
  then show ?L by (simp add: validateEmail_def s)
qed


text \<open>
  Claim C6. A string without \<open>@\<close>, or with an \<open>@\<close> that no \<open>.\<close> follows, is rejected by
  \<open>validateEmail\<close>; \<open>user@example.com\<close> is accepted.
\<close>

theorem validateEmail_needs_at_then_dot:
  "(chr_at \<notin> set s \<or> (\<exists>a b. s = a @ chr_at # b \<and> chr_dot \<notin> set b) \<longrightarrow> \<not> validateEmail s) \<and>
   validateEmail (js ''user@example.com'')"
proof
  show "chr_at \<notin> set s \<or> (\<exists>a b. s = a @ chr_at # b \<and> chr_dot \<notin> set b) \<longrightarrow> \<not> validateEmail s"
  proof (intro impI notI)
    assume hyp: "chr_at \<notin> set s \<or> (\<exists>a b. s = a @ chr_at # b \<and> chr_dot \<notin> set b)"
    assume "validateEmail s"
    then obtain a b c where s: "s = a @ chr_at # b @ chr_dot # c"
      and ok: "list_all not_space_at a" "list_all not_space_at b" "list_all not_space_at c"
      unfolding validateEmail_shape by blast
    from ok have na: "chr_at \<notin> set a" and nb: "chr_at \<notin> set (b @ chr_dot # c)"
      by (auto simp: list_all_iff not_space_at_def chr_at_def chr_dot_def)
    from hyp show False
    proof
      assume "chr_at \<notin> set s"
      with s show False by simp
    next
      assume "\<exists>a' b'. s = a' @ chr_at # b' \<and> chr_dot \<notin> set b'"
      then obtain a' b' where s': "s = a' @ chr_at # b'" and nd: "chr_dot \<notin> set b'" by blast
      from s s' have "a @ chr_at # (b @ chr_dot # c) = a' @ chr_at # b'" by simp
      with na nb have "b' = b @ chr_dot # c"
        by (metis append_Cons_eq_iff)
      with nd show False by simp
    qed
  qed
next
  show "validateEmail (js ''user@example.com'')"
    by (simp add: validateEmail_def emailRegex_def js_def not_space_at_def rx_space_def
        chr_at_def chr_dot_def)
qed

theorem validateEmail_needs_at_then_dot_witness:
  "chr_at \<notin> set (js ''user.example.com'') \<and> \<not> validateEmail (js ''user.example.com'') \<and>
   js ''user@example'' = js ''user'' @ chr_at # js ''example'' \<and>
   chr_dot \<notin> set (js ''example'') \<and> \<not> validateEmail (js ''user@example'')"
proof -
  have 1: "chr_at \<notin> set (js ''user.example.com'')"
    by (simp add: js_def chr_at_def)
  have 2: "js ''user@example'' = js ''user'' @ chr_at # js ''example''"
    by (simp add: js_def chr_at_def)
  have 3: "chr_dot \<notin> set (js ''example'')"
    by (simp add: js_def chr_dot_def)
  from 2 3 have 4: "\<exists>a b. js ''user@example'' = a @ chr_at # b \<and> chr_dot \<notin> set b"
    by blast
  show ?thesis
    using 1 2 3 4 validateEmail_needs_at_then_dot [of "js ''user.example.com''"]
      validateEmail_needs_at_then_dot [of "js ''user@example''"]
    by blast
qed

section \<open>Properties of \<open>validateUrl\<close>\<close>

























lemma validateUrl_example: "validateUrl toASCII (js ''https://example.com/a'')"
  by code_simp





section \<open>Properties of the handlers\<close>

text \<open>
  Claim C10. \<open>handleInputChange\<close> stores the value in the named field and changes nothing
  else: the other field, the two flags, the notifications and the requests stay as they
  are. It is a total function with no error result.
\<close>

theorem handleInputChange_frame:
  "email (formData (handleInputChange Email v s)) = v \<and>
   article_url (formData (handleInputChange Email v s)) = article_url (formData s) \<and>
   article_url (formData (handleInputChange Article_url v s)) = v \<and>
   email (formData (handleInputChange Article_url v s)) = email (formData s) \<and>
   isLoading (handleInputChange f v s) = isLoading s \<and>
   isSuccess (handleInputChange f v s) = isSuccess s \<and>
   toasts (handleInputChange f v s) = toasts s \<and>
   fetches (handleInputChange f v s) = fetches s \<and>
   outstanding (handleInputChange f v s) = outstanding s"
  by (simp add: handleInputChange_def setFormData_def)

lemmas state_defs = setFormData_def setIsLoading_def setIsSuccess_def toast_def fetch_def


lemma validateEmail_example: "validateEmail (js ''user@example.com'')"
  by (simp add: validateEmail_def emailRegex_def js_def not_space_at_def rx_space_def
      chr_at_def chr_dot_def)


lemma filled_State_eq:
  "filled_State =
     \<lparr>formData = \<lparr>email = js ''user@example.com'', article_url = js ''https://example.com/a''\<rparr>,
      isLoading = False, isSuccess = False, toasts = [], fetches = [], outstanding = 0\<rparr>"
  by (simp add: filled_State_def handleInputChange_def initial_State_def setFormData_def)

lemma submitting_State_eq:
  "submitting_State =
     \<lparr>formData = \<lparr>email = js ''user@example.com'', article_url = js ''https://example.com/a''\<rparr>,
      isLoading = True, isSuccess = False, toasts = [],
      fetches = [submit_call \<lparr>email = js ''user@example.com'',
                              article_url = js ''https://example.com/a''\<rparr>],
      outstanding = 1\<rparr>"
  by (simp add: submitting_State_def handleSubmit_start_def filled_State_eq
      validateEmail_example validateUrl_example state_defs)

lemma reachable_filled: "reachable toASCII filled_State"
proof -
  have 1: "reachable toASCII (fire toASCII (Change Email (js ''user@example.com'')) initial_State)"
    by (rule reachable.step[OF reachable.initial]) (simp add: render_def initial_State_def)
  have "reachable toASCII (fire toASCII (Change Article_url (js ''https://example.com/a''))
          (fire toASCII (Change Email (js ''user@example.com'')) initial_State))"
    by (rule reachable.step[OF 1])
      (simp add: render_def initial_State_def handleInputChange_def setFormData_def)
  then show ?thesis by (simp add: filled_State_def)
qed

lemma reachable_submitting: "reachable no_IDNA submitting_State"
proof -
  have "reachable no_IDNA (fire no_IDNA Submit filled_State)"
    by (rule reachable.step[OF reachable_filled]) (simp add: render_def filled_State_eq)
  then show ?thesis by (simp add: submitting_State_def)
qed

lemma succeeded_State_eq:
  "succeeded_State =
     \<lparr>formData = \<lparr>email = js ''user@example.com'', article_url = js ''https://example.com/a''\<rparr>,
      isLoading = False, isSuccess = True, toasts = [success_toast],
      fetches = [submit_call \<lparr>email = js ''user@example.com'',
                              article_url = js ''https://example.com/a''\<rparr>],
      outstanding = 0\<rparr>"
  by (simp add: succeeded_State_def submitting_State_eq handleSubmit_finish_def try_block_def
      response_ok_def ok_true_def state_defs)

lemma reachable_succeeded: "reachable no_IDNA succeeded_State"
proof -
  have "reachable no_IDNA (fire no_IDNA (Finish (Response 200 (Inr ok_true))) submitting_State)"
    by (rule reachable.step[OF reachable_submitting]) (simp add: submitting_State_eq)
  then show ?thesis by (simp add: succeeded_State_def)
qed

text \<open>
  Between events, \<open>isLoading\<close> is set exactly while one call is outstanding, and never
  together with \<open>isSuccess\<close>.
\<close>

lemma reachable_invariant:
  "reachable toASCII s \<Longrightarrow>
     outstanding s = (if isLoading s then 1 else 0) \<and> \<not> (isLoading s \<and> isSuccess s)"
proof (induction rule: reachable.induct)
  case initial
  show ?case by (simp add: initial_State_def)
next
  case (step s e)
  show ?case
  proof (cases e)
    case (Change f v)
    with step show ?thesis by (simp add: handleInputChange_def state_defs)
  next
    case Submit
    with step show ?thesis
      by (simp add: handleSubmit_start_def render_def state_defs split: if_splits)
  next
    case (Finish r)
    with step.IH step.hyps(2) have l: "isLoading s" "\<not> isSuccess s" "outstanding s = 1"
      by (auto split: if_splits)
    show ?thesis
      by (cases "try_block r s")
        (auto simp: Finish handleSubmit_finish_def state_defs l try_block_def
          split: fetch_result.splits if_splits sum.splits)
  next
    case Reset
    with step show ?thesis
      by (simp add: resetForm_def render_def state_defs split: if_splits)
  qed
qed

text \<open>
  Claim C5 as stated fails for the URL field. With an email address and a URL that both
  fail their validators, the URL fails \<open>validateUrl\<close>, yet the one notification shown is
  the one for the email address, and none names the URL.
\<close>

theorem both_invalid_counterexample:
  "\<not> validateUrl no_IDNA (article_url (formData
       (handleInputChange Article_url (js ''not a url'')
          (handleInputChange Email (js ''user.example.com'') initial_State)))) \<and>
   toasts (handleSubmit_start no_IDNA
       (handleInputChange Article_url (js ''not a url'')
          (handleInputChange Email (js ''user.example.com'') initial_State))) =
     [invalid_email_toast] \<and>
   invalid_url_toast \<notin> set (toasts (handleSubmit_start no_IDNA
       (handleInputChange Article_url (js ''not a url'')
          (handleInputChange Email (js ''user.example.com'') initial_State)))) \<and>
   title invalid_email_toast = ''Invalid Email'' \<and>
   description invalid_email_toast = ''Please enter a valid email address.''"
proof -
  have 1: "\<not> validateEmail (js ''user.example.com'')"
    by code_simp
  have 2: "\<not> validateUrl no_IDNA (js ''not a url'')"
    by code_simp
  have 3: "invalid_url_toast \<noteq> invalid_email_toast"
    by (simp add: invalid_url_toast_def invalid_email_toast_def)
  show ?thesis
    using 1 2 3
    by (simp add: handleSubmit_start_def handleInputChange_def setFormData_def toast_def
        initial_State_def)
      (simp add: invalid_email_toast_def)
qed

text \<open>
  Claim C5, amended. When the email address fails \<open>validateEmail\<close>, \<open>handleSubmit\<close> shows
  the notification titled \<open>Invalid Email\<close> and returns: no \<open>fetch\<close> call is made and nothing
  else changes. When the URL fails \<open>validateUrl\<close>, it likewise shows exactly one
  notification and makes no \<open>fetch\<close> call; the notification is the one titled
  \<open>Invalid URL\<close> when the email address is valid, and the one for the email address, which
  is checked first, when it is not.
\<close>

theorem handleSubmit_invalid_input:
  "(\<not> validateEmail (email (formData s)) \<longrightarrow>
      toasts (handleSubmit_start toASCII s) = toasts s @ [invalid_email_toast] \<and>
      title invalid_email_toast = ''Invalid Email'' \<and>
      fetches (handleSubmit_start toASCII s) = fetches s \<and>
      outstanding (handleSubmit_start toASCII s) = outstanding s \<and>
      isLoading (handleSubmit_start toASCII s) = isLoading s \<and>
      isSuccess (handleSubmit_start toASCII s) = isSuccess s \<and>
      formData (handleSubmit_start toASCII s) = formData s) \<and>
   (\<not> validateUrl toASCII (article_url (formData s)) \<longrightarrow>
      toasts (handleSubmit_start toASCII s) =
        toasts s @ [if validateEmail (email (formData s)) then invalid_url_toast
                    else invalid_email_toast] \<and>
      title invalid_url_toast = ''Invalid URL'' \<and>
      fetches (handleSubmit_start toASCII s) = fetches s \<and>
      outstanding (handleSubmit_start toASCII s) = outstanding s \<and>
      isLoading (handleSubmit_start toASCII s) = isLoading s \<and>
      isSuccess (handleSubmit_start toASCII s) = isSuccess s \<and>
      formData (handleSubmit_start toASCII s) = formData s)"
  by (simp add: handleSubmit_start_def toast_def invalid_email_toast_def invalid_url_toast_def)

theorem handleSubmit_invalid_input_witness:
  "\<not> validateEmail (email (formData (handleInputChange Email (js ''user.example.com'') initial_State))) \<and>
   toasts (handleSubmit_start no_IDNA (handleInputChange Email (js ''user.example.com'') initial_State)) =
     [invalid_email_toast] \<and>
   fetches (handleSubmit_start no_IDNA (handleInputChange Email (js ''user.example.com'') initial_State)) = [] \<and>
   \<not> validateUrl no_IDNA (article_url (formData (handleInputChange Article_url (js ''not a url'')
        (handleInputChange Email (js ''user@example.com'') initial_State)))) \<and>
   toasts (handleSubmit_start no_IDNA (handleInputChange Article_url (js ''not a url'')
        (handleInputChange Email (js ''user@example.com'') initial_State))) = [invalid_url_toast] \<and>
   fetches (handleSubmit_start no_IDNA (handleInputChange Article_url (js ''not a url'')
        (handleInputChange Email (js ''user@example.com'') initial_State))) = []"
proof -
  let ?s1 = "handleInputChange Email (js ''user.example.com'') initial_State"
  let ?s2 = "handleInputChange Article_url (js ''not a url'')
        (handleInputChange Email (js ''user@example.com'') initial_State)"
  have e1: "email (formData ?s1) = js ''user.example.com''" and t1: "toasts ?s1 = []"
    and f1: "fetches ?s1 = []"
    by (simp_all add: handleInputChange_def setFormData_def initial_State_def)
  have e2: "email (formData ?s2) = js ''user@example.com''"
    and u2: "article_url (formData ?s2) = js ''not a url''"
    and t2: "toasts ?s2 = []" and f2: "fetches ?s2 = []"
    by (simp_all add: handleInputChange_def setFormData_def initial_State_def)
  have 1: "\<not> validateEmail (js ''user.example.com'')"
    by code_simp
  have 2: "\<not> validateUrl no_IDNA (js ''not a url'')"
    by code_simp
  show ?thesis
    using handleSubmit_invalid_input [of ?s1 no_IDNA] handleSubmit_invalid_input [of ?s2 no_IDNA]
      1 2 validateEmail_example
    by (simp only: e1 e2 u2 t1 t2 f1 f2) simp
qed

text \<open>
  Claim C4. With an email address and a URL that pass both validators, a submission from
  the idle form sets the view to Submitting and makes the \<open>fetch\<close> call without any
  notification; when the backend answers \<^verbatim>\<open>200 {"ok": true}\<close> the view becomes Succeeded and
  the only notification added is the success notification, once.
\<close>

theorem handleSubmit_success:
  assumes "validateEmail (email (formData s))"
    and "validateUrl toASCII (article_url (formData s))"
    and "viewStatus s = Idle"
  shows "viewStatus (handleSubmit_start toASCII s) = Submitting \<and>
         toasts (handleSubmit_start toASCII s) = toasts s \<and>
         fetches (handleSubmit_start toASCII s) = fetches s @ [submit_call (formData s)] \<and>
         viewStatus (handleSubmit_finish (Response 200 (Inr ok_true))
                       (handleSubmit_start toASCII s)) = Succeeded \<and>
         toasts (handleSubmit_finish (Response 200 (Inr ok_true))
                   (handleSubmit_start toASCII s)) = toasts s @ [success_toast]"
proof -
  from assms(3) have idle: "\<not> isSuccess s" "\<not> isLoading s"
    by (auto simp: viewStatus_def split: if_splits)
  have start: "handleSubmit_start toASCII s =
      s\<lparr>isLoading := True, fetches := fetches s @ [submit_call (formData s)],
        outstanding := outstanding s + 1\<rparr>"
    using assms(1,2) by (simp add: handleSubmit_start_def state_defs)
  have "get_ok ok_true = Inr (Boolean True)"
    by (simp add: ok_true_def)
  then have finish: "handleSubmit_finish (Response 200 (Inr ok_true)) (handleSubmit_start toASCII s) =
      s\<lparr>isLoading := False, isSuccess := True, toasts := toasts s @ [success_toast],
        fetches := fetches s @ [submit_call (formData s)], outstanding := outstanding s\<rparr>"
    by (simp add: start handleSubmit_finish_def try_block_def response_ok_def state_defs)
  show ?thesis
    unfolding finish unfolding start using idle by (simp add: viewStatus_def)
qed

theorem handleSubmit_success_witness:
  "validateEmail (email (formData filled_State)) \<and>
   validateUrl no_IDNA (article_url (formData filled_State)) \<and>
   viewStatus filled_State = Idle \<and>
   viewStatus submitting_State = Submitting \<and>
   viewStatus succeeded_State = Succeeded \<and>
   toasts succeeded_State = [success_toast]"
proof -
  have 1: "validateEmail (email (formData filled_State))"
    by (simp add: filled_State_eq validateEmail_example)
  have 2: "validateUrl no_IDNA (article_url (formData filled_State))"
    by (simp add: filled_State_eq validateUrl_example)
  have 3: "viewStatus filled_State = Idle"
    by (simp add: filled_State_eq viewStatus_def)
  have 4: "toasts filled_State = []"
    by (simp add: filled_State_eq)
  show ?thesis
    using handleSubmit_success [OF 1 2 3] 1 2 3 4
    by (simp add: submitting_State_def succeeded_State_def)
qed

text \<open>
  Claim C2 as stated fails. A body \<^verbatim>\<open>{"ok": 1}\<close> has an \<open>ok\<close> field that is not the boolean \<open>true\<close>, yet the
  submission in flight ends in the Succeeded view with the success notification and no
  failure notification.
\<close>

theorem ok_not_true_counterexample:
  "get_ok (Object [(js ''ok'', Number (Finite 1))]) = Inr (Number (Finite 1)) \<and>
   Number (Finite 1) \<noteq> Boolean True \<and>
   viewStatus submitting_State = Submitting \<and>
   viewStatus (handleSubmit_finish
      (Response 200 (Inr (Object [(js ''ok'', Number (Finite 1))]))) submitting_State) = Succeeded \<and>
   toasts (handleSubmit_finish
      (Response 200 (Inr (Object [(js ''ok'', Number (Finite 1))]))) submitting_State) = [success_toast] \<and>
   error_toast \<noteq> success_toast"
  by (simp add: submitting_State_eq handleSubmit_finish_def try_block_def response_ok_def
      state_defs viewStatus_def error_toast_def success_toast_def)

text \<open>
  Claim C2, amended. For every response whose parsed JSON body has an \<open>ok\<close> field that is
  falsy (absent, \<open>false\<close>, \<open>null\<close>, \<open>0\<close>, \<open>NaN\<close> or the empty string), whatever the status,
  the submission in flight is treated as a failure: the view does not become Succeeded and
  the failure notification is shown. A truthy \<open>ok\<close> on a response with a status from 200
  to 299 counts as success, whether or not it is the boolean \<open>true\<close>.
\<close>

theorem falsy_ok_is_failure:
  assumes "get_ok v = Inr ok" and "viewStatus s = Submitting"
  shows "(\<not> ToBoolean ok \<longrightarrow>
            viewStatus (handleSubmit_finish (Response st (Inr v)) s) \<noteq> Succeeded \<and>
            toasts (handleSubmit_finish (Response st (Inr v)) s) = toasts s @ [error_toast]) \<and>
         (ToBoolean ok \<and> response_ok st \<longrightarrow>
            viewStatus (handleSubmit_finish (Response st (Inr v)) s) = Succeeded \<and>
            toasts (handleSubmit_finish (Response st (Inr v)) s) = toasts s @ [success_toast])"
proof (intro conjI impI)
  from assms(2) have ns: "\<not> isSuccess s"
    by (auto simp: viewStatus_def split: if_splits)
  {
    assume "\<not> ToBoolean ok"
    then have "\<exists>e. try_block (Response st (Inr v)) s = Inl e"
      using assms(1) by (simp add: try_block_def)
    with ns show "viewStatus (handleSubmit_finish (Response st (Inr v)) s) \<noteq> Succeeded"
      and "toasts (handleSubmit_finish (Response st (Inr v)) s) = toasts s @ [error_toast]"
      by (auto simp: handleSubmit_finish_def state_defs viewStatus_def)
  }
  {
    assume "ToBoolean ok \<and> response_ok st"
    then have "try_block (Response st (Inr v)) s = Inr (toast success_toast (setIsSuccess True s))"
      using assms(1) by (simp add: try_block_def)
    then show "viewStatus (handleSubmit_finish (Response st (Inr v)) s) = Succeeded"
      and "toasts (handleSubmit_finish (Response st (Inr v)) s) = toasts s @ [success_toast]"
      by (simp_all add: handleSubmit_finish_def state_defs viewStatus_def)
  }
qed

theorem falsy_ok_is_failure_witness:
  "get_ok (Object [(js ''ok'', Boolean False)]) = Inr (Boolean False) \<and>
   \<not> ToBoolean (Boolean False) \<and>
   get_ok (Object []) = Inr Undefined \<and>
   \<not> ToBoolean Undefined \<and>
   viewStatus submitting_State = Submitting \<and>
   viewStatus (handleSubmit_finish (Response 200 (Inr (Object [(js ''ok'', Boolean False)])))
      submitting_State) \<noteq> Succeeded \<and>
   toasts (handleSubmit_finish (Response 200 (Inr (Object [(js ''ok'', Boolean False)])))
      submitting_State) = [error_toast] \<and>
   toasts (handleSubmit_finish (Response 200 (Inr (Object []))) submitting_State) = [error_toast] \<and>
   get_ok (Object [(js ''ok'', Array [])]) = Inr (Array []) \<and>
   ToBoolean (Array []) \<and> response_ok 201 \<and>
   viewStatus (handleSubmit_finish (Response 201 (Inr (Object [(js ''ok'', Array [])])))
      submitting_State) = Succeeded \<and>
   toasts (handleSubmit_finish (Response 201 (Inr (Object [(js ''ok'', Array [])])))
      submitting_State) = [success_toast]"
proof -
  have 1: "get_ok (Object [(js ''ok'', Boolean False)]) = Inr (Boolean False)" by simp
  have 2: "\<not> ToBoolean (Boolean False)" by simp
  have 3: "get_ok (Object []) = Inr Undefined" by simp
  have 4: "\<not> ToBoolean Undefined" by simp
  have 5: "viewStatus submitting_State = Submitting"
    by (simp add: submitting_State_eq viewStatus_def)
  have 6: "toasts submitting_State = []"
    by (simp add: submitting_State_eq)
  have 7: "get_ok (Object [(js ''ok'', Array [])]) = Inr (Array [])" by simp
  have 8: "ToBoolean (Array [])" by simp
  have 9: "response_ok 201" by (simp add: response_ok_def)
  show ?thesis
    using falsy_ok_is_failure [OF 1 5, of 200] falsy_ok_is_failure [OF 3 5, of 200]
      falsy_ok_is_failure [OF 7 5, of 201] 1 2 3 4 5 6 7 8 9
    by simp
qed

text \<open>
  Claim C3 as stated fails. A body \<^verbatim>\<open>{"ok": "yes"}\<close> is a response body without \<^verbatim>\<open>ok: true\<close>, yet the submission in
  flight ends in the Succeeded view, not in Idle, and no failure notification is shown.
\<close>

theorem body_without_ok_true_counterexample:
  "map_of [(js ''ok'', String (js ''yes''))] (js ''ok'') \<noteq> Some (Boolean True) \<and>
   viewStatus submitting_State = Submitting \<and>
   viewStatus (handleSubmit_finish
      (Response 200 (Inr (Object [(js ''ok'', String (js ''yes''))]))) submitting_State) \<noteq> Idle \<and>
   error_toast \<notin> set (toasts (handleSubmit_finish
      (Response 200 (Inr (Object [(js ''ok'', String (js ''yes''))]))) submitting_State))"
  by (simp add: submitting_State_eq handleSubmit_finish_def try_block_def response_ok_def
      state_defs viewStatus_def error_toast_def success_toast_def js_def)

text \<open>
  Claim C3, amended. For every failing attempt of the submission in flight (a
  network-level fault, a status outside 200 to 299, a body that is not JSON, the body
  \<open>null\<close>, or a JSON body whose \<open>ok\<close> is absent or falsy), exactly one notification is
  added, the failure notification; \<open>isLoading\<close> is cleared and the view is Idle again.
\<close>

theorem failed_attempt_returns_to_idle:
  assumes "r = NetworkFailure \<or>
           (\<exists>st p. r = Response st p \<and> \<not> response_ok st) \<or>
           (\<exists>st e. r = Response st (Inl e)) \<or>
           (\<exists>st v e. r = Response st (Inr v) \<and> get_ok v = Inl e) \<or>
           (\<exists>st v ok. r = Response st (Inr v) \<and> get_ok v = Inr ok \<and> \<not> ToBoolean ok)"
    and "viewStatus s = Submitting"
  shows "toasts (handleSubmit_finish r s) = toasts s @ [error_toast] \<and>
         \<not> isLoading (handleSubmit_finish r s) \<and>
         viewStatus (handleSubmit_finish r s) = Idle"
proof -
  from assms(2) have ns: "\<not> isSuccess s"
    by (auto simp: viewStatus_def split: if_splits)
  from assms(1) have "\<exists>e. try_block r s = Inl e"
    by (auto simp: try_block_def split: sum.splits)
  with ns show ?thesis
    by (auto simp: handleSubmit_finish_def state_defs viewStatus_def)
qed

theorem failed_attempt_returns_to_idle_witness:
  "viewStatus submitting_State = Submitting \<and>
   \<not> response_ok 500 \<and>
   get_ok (Object [(js ''ok'', Boolean False)]) = Inr (Boolean False) \<and>
   \<not> ToBoolean (Boolean False) \<and>
   toasts (handleSubmit_finish NetworkFailure submitting_State) = [error_toast] \<and>
   viewStatus (handleSubmit_finish NetworkFailure submitting_State) = Idle \<and>
   toasts (handleSubmit_finish (Response 500 (Inl SyntaxError)) submitting_State) = [error_toast] \<and>
   viewStatus (handleSubmit_finish (Response 500 (Inl SyntaxError)) submitting_State) = Idle \<and>
   toasts (handleSubmit_finish (Response 200 (Inr (Object [(js ''ok'', Boolean False)])))
      submitting_State) = [error_toast] \<and>
   viewStatus (handleSubmit_finish (Response 200 (Inr (Object [(js ''ok'', Boolean False)])))
      submitting_State) = Idle"
proof -
  have 1: "viewStatus submitting_State = Submitting"
    by (simp add: submitting_State_eq viewStatus_def)
  have 2: "\<not> response_ok 500"
    by (simp add: response_ok_def)
  have 3: "get_ok (Object [(js ''ok'', Boolean False)]) = Inr (Boolean False)" by simp
  have 4: "\<not> ToBoolean (Boolean False)" by simp
  have 5: "toasts submitting_State = []"
    by (simp add: submitting_State_eq)
  have a: "NetworkFailure = NetworkFailure \<or>
           (\<exists>st p. NetworkFailure = Response st p \<and> \<not> response_ok st) \<or>
           (\<exists>st e. NetworkFailure = Response st (Inl e)) \<or>
           (\<exists>st v e. NetworkFailure = Response st (Inr v) \<and> get_ok v = Inl e) \<or>
           (\<exists>st v ok. NetworkFailure = Response st (Inr v) \<and> get_ok v = Inr ok \<and> \<not> ToBoolean ok)"
    by simp
  have b: "Response 500 (Inl SyntaxError) = NetworkFailure \<or>
           (\<exists>st p. Response 500 (Inl SyntaxError) = Response st p \<and> \<not> response_ok st) \<or>
           (\<exists>st e. Response 500 (Inl SyntaxError) = Response st (Inl e)) \<or>
           (\<exists>st v e. Response 500 (Inl SyntaxError) = Response st (Inr v) \<and> get_ok v = Inl e) \<or>
           (\<exists>st v ok. Response 500 (Inl SyntaxError) = Response st (Inr v) \<and> get_ok v = Inr ok \<and>
              \<not> ToBoolean ok)"
    using 2 by simp
  have c: "Response 200 (Inr (Object [(js ''ok'', Boolean False)])) = NetworkFailure \<or>
           (\<exists>st p. Response 200 (Inr (Object [(js ''ok'', Boolean False)])) = Response st p \<and>
              \<not> response_ok st) \<or>
           (\<exists>st e. Response 200 (Inr (Object [(js ''ok'', Boolean False)])) = Response st (Inl e)) \<or>
           (\<exists>st v e. Response 200 (Inr (Object [(js ''ok'', Boolean False)])) = Response st (Inr v) \<and>
              get_ok v = Inl e) \<or>
           (\<exists>st v ok. Response 200 (Inr (Object [(js ''ok'', Boolean False)])) = Response st (Inr v) \<and>
              get_ok v = Inr ok \<and> \<not> ToBoolean ok)"
    by simp
  show ?thesis
    using failed_attempt_returns_to_idle [OF a 1] failed_attempt_returns_to_idle [OF b 1]
      failed_attempt_returns_to_idle [OF c 1] 1 2 3 4 5
    by simp
qed

text \<open>
  Claim C7. In every reachable state at most one request is outstanding; the view is
  Submitting exactly when one is; and while one is, the form is shown with its submit
  button disabled, so that no submit event is possible.
\<close>

theorem one_outstanding_request:
  assumes "reachable toASCII s"
  shows "outstanding s \<le> 1 \<and>
         (viewStatus s = Submitting \<longleftrightarrow> outstanding s = 1) \<and>
         (0 < outstanding s \<longrightarrow>
            render s \<noteq> SuccessPanel \<and> submit_disabled (render s) \<and> \<not> enabled s Submit)"
  using reachable_invariant [OF assms]
  by (auto simp: viewStatus_def render_def split: if_splits)

theorem one_outstanding_request_witness:
  "reachable no_IDNA submitting_State \<and>
   outstanding submitting_State = 1 \<and>
   viewStatus submitting_State = Submitting \<and>
   submit_disabled (render submitting_State) \<and>
   \<not> enabled submitting_State Submit"
proof -
  have "outstanding submitting_State = 1"
    by (simp add: submitting_State_eq)
  then show ?thesis
    using one_outstanding_request [OF reachable_submitting] reachable_submitting
    by simp
qed

text \<open>
  Claim C9. In every reachable state showing the Succeeded view, \<open>resetForm\<close> empties both
  fields of the form data and leaves the view Idle; the reset button is offered exactly in
  the Succeeded view.
\<close>

theorem resetForm_from_succeeded:
  "(reachable toASCII s \<and> viewStatus s = Succeeded \<longrightarrow>
      formData (resetForm s) = \<lparr>email = [], article_url = []\<rparr> \<and>
      viewStatus (resetForm s) = Idle) \<and>
   (enabled s Reset \<longleftrightarrow> viewStatus s = Succeeded)"
proof (intro conjI impI)
  assume a: "reachable toASCII s \<and> viewStatus s = Succeeded"
  then have "isSuccess s" by (auto simp: viewStatus_def split: if_splits)
  with a reachable_invariant have "\<not> isLoading s" by blast
  then show "viewStatus (resetForm s) = Idle"
    by (simp add: resetForm_def state_defs viewStatus_def)
next
  show "formData (resetForm s) = \<lparr>email = [], article_url = []\<rparr>"
    by (simp add: resetForm_def state_defs)
next
  show "enabled s Reset \<longleftrightarrow> viewStatus s = Succeeded"
    by (simp add: render_def viewStatus_def)
qed

theorem resetForm_from_succeeded_witness:
  "reachable no_IDNA succeeded_State \<and> viewStatus succeeded_State = Succeeded \<and>
   enabled succeeded_State Reset \<and>
   formData (resetForm succeeded_State) = \<lparr>email = [], article_url = []\<rparr> \<and>
   viewStatus (resetForm succeeded_State) = Idle"
proof -
  have "viewStatus succeeded_State = Succeeded"
    by (simp add: succeeded_State_eq viewStatus_def)
  then show ?thesis
    using resetForm_from_succeeded [of no_IDNA succeeded_State] reachable_succeeded
    by simp
qed





















end
